theory Spec2Isabelle
  imports Complex_Main
begin

section \<open>The frame generator of app.py\<close>

text \<open>
  This theory embeds the frame generator of \<^verbatim>\<open>app.py\<close>: \<^verbatim>\<open>load_font\<close>,
  \<^verbatim>\<open>create_heart\<close> and \<^verbatim>\<open>generate_frames\<close>.

  Conventions of the embedding.
  \<^item> Python's unbounded \<^verbatim>\<open>int\<close> is \<open>int\<close>. Python's \<^verbatim>\<open>float\<close> is rendered by exact
    rational arithmetic (\<open>rat\<close>): the decimal literals \<^verbatim>\<open>0.03\<close>, \<^verbatim>\<open>0.65\<close> \<dots> are the
    fractions they denote and no operation rounds. The statements below are about this
    exact arithmetic. The program's doubles agree with it up to rounding errors, which
    can move a truncation \<^verbatim>\<open>int(y)\<close> or a comparison \<^verbatim>\<open>y > height\<close> only where the exact
    value lies within such an error of an integer or of the bound.
  \<^item> Exceptions are values: a computation that may raise returns \<open>py_error + 'a\<close>.
  \<^item> The \<^verbatim>\<open>random\<close> module is an explicit source of draws \<open>rng\<close>: the outcome of the
    \<open>i\<close>-th call is read from \<open>g i\<close>, so that every value a call can return is the
    value for some source.
  \<^item> The file system and FreeType, which \<^verbatim>\<open>load_font\<close> and \<^verbatim>\<open>textsize\<close> consult, are the
    record \<open>env\<close>.
  \<^item> A Pillow image is not a pixel array here but the record of how it was made: its
    mode, its size, the picture it started from and the drawing operations applied to
    it, in order. Equal records are equal rasters, since every Pillow operation used
    is a function of its arguments.
  \<^item> Pillow is taken as in its releases 8.2 to 9.5, the ones on which every call of
    \<^verbatim>\<open>app.py\<close> exists and \<^verbatim>\<open>generate_frames\<close> can return a frame with a heart on it. Of
    its exceptions the model has the one the arguments of \<^verbatim>\<open>generate_frames\<close> can
    trigger, that of \<^verbatim>\<open>resize\<close>.
\<close>

subsection \<open>Python values and exceptions\<close>

datatype py_error = ValueError | ZeroDivisionError | KeyError | OSError

type_synonym rgba = "int \<times> int \<times> int \<times> int"

text \<open>\<^verbatim>\<open>int(x)\<close> of a float truncates toward zero.\<close>

definition py_int :: "rat \<Rightarrow> int" where
  "py_int q = (if 0 \<le> q then \<lfloor>q\<rfloor> else \<lceil>q\<rceil>)"

text \<open>\<^verbatim>\<open>a / b\<close> on two ints: true division, \<^verbatim>\<open>ZeroDivisionError\<close> when \<^verbatim>\<open>b == 0\<close>.\<close>

definition truediv :: "int \<Rightarrow> int \<Rightarrow> py_error + rat" where
  "truediv a b = (if b = 0 then Inl ZeroDivisionError else Inr (rat_of_int a / rat_of_int b))"

subsection \<open>The random module\<close>

type_synonym rng = "nat \<Rightarrow> nat"

text \<open>
  \<^verbatim>\<open>random.randint(a, b)\<close> returns an integer \<open>N\<close> with \<open>a \<le> N \<le> b\<close> and raises
  \<^verbatim>\<open>ValueError\<close> on an empty range. \<^verbatim>\<open>random.random()\<close> returns a multiple of
  \<open>1 / 2 ^ 53\<close> in \<open>[0, 1)\<close>; \<open>2 ^ 53 = 9007199254740992\<close>.
\<close>

definition randint :: "rng \<Rightarrow> nat \<Rightarrow> int \<Rightarrow> int \<Rightarrow> py_error + int" where
  "randint g i a b =
     (if b < a then Inl ValueError else Inr (a + int (g i) mod (b - a + 1)))"

definition random_float :: "rng \<Rightarrow> nat \<Rightarrow> rat" where
  "random_float g i = rat_of_int (int (g i) mod 9007199254740992) / 9007199254740992"

definition zero_rng :: rng where
  "zero_rng i = 0"

definition late_rng :: rng where
  "late_rng i = (if i < 45 then 0 else 1)"

subsection \<open>Fonts: \<^verbatim>\<open>load_font\<close>\<close>

datatype font = FreeTypeFont string int | DefaultFont

record env =
  isfile :: "string \<Rightarrow> bool"
  truetype :: "string \<Rightarrow> int \<Rightarrow> py_error + font"
  textsize :: "string \<Rightarrow> font \<Rightarrow> int \<times> int"

definition font_paths :: "string list" where
  "font_paths =
     [''/usr/share/fonts/truetype/dejavu/DejaVuSans-Bold.ttf'',
      ''/usr/share/fonts/truetype/dejavu/DejaVuSans.ttf'',
      ''/usr/share/fonts/truetype/freefont/FreeSansBold.ttf'']"

text \<open>\<^verbatim>\<open>ImageFont.load_default()\<close>: the bitmap font built into Pillow.\<close>

definition load_default :: "py_error + font" where
  "load_default = Inr DefaultFont"

text \<open>
  The \<^verbatim>\<open>for path in font_paths\<close> loop: a path that is no file is passed over, an
  exception of \<^verbatim>\<open>truetype\<close> is caught (\<^verbatim>\<open>except Exception: continue\<close>), the first font
  that loads is returned; after the loop comes \<^verbatim>\<open>load_default()\<close>.
\<close>

fun try_paths :: "env \<Rightarrow> int \<Rightarrow> string list \<Rightarrow> py_error + font" where
  "try_paths E sz [] = load_default"
| "try_paths E sz (path # paths) =
     (if isfile E path
      then (case truetype E path sz of
              Inr f \<Rightarrow> Inr f
            | Inl e \<Rightarrow> try_paths E sz paths)
      else try_paths E sz paths)"

definition load_font :: "env \<Rightarrow> int \<Rightarrow> py_error + font" where
  "load_font E sz = try_paths E sz font_paths"

definition no_fonts :: env where
  "no_fonts = \<lparr>isfile = (\<lambda>p. False), truetype = (\<lambda>p s. Inl OSError),
               textsize = (\<lambda>m f. (6 * int (length m), 11))\<rparr>"

subsection \<open>Images and drawing\<close>

datatype mode = RGBA | RGB

datatype shape =
    Ellipse "rat \<times> rat \<times> rat \<times> rat" rgba
  | Polygon "(rat \<times> rat) list" rgba

text \<open>A sprite: \<^verbatim>\<open>Image.new("RGBA", size, fill)\<close> and the shapes drawn on it, in order.\<close>

record sprite =
  sp_mode :: mode
  sp_size :: "int \<times> int"
  sp_fill :: rgba
  sp_shapes :: "shape list"

datatype draw_op =
    is_text: DrawText "int \<times> int" string font rgba
  | is_composite: AlphaComposite sprite "int \<times> int"

text \<open>A frame: the picture \<open>im_source\<close> resized to \<open>im_size\<close>, then \<open>im_ops\<close> in order.\<close>

record 'a image =
  im_mode :: mode
  im_size :: "int \<times> int"
  im_source :: 'a
  im_ops :: "draw_op list"

text \<open>
  \<^verbatim>\<open>base_image.convert("RGBA").resize((width, height), Image.LANCZOS)\<close>. Pillow's
  \<^verbatim>\<open>resize\<close> raises \<^verbatim>\<open>ValueError\<close> ("height and width must be > 0") for a target
  size with a side below 1.
\<close>

definition resize :: "'a \<Rightarrow> int \<times> int \<Rightarrow> py_error + 'a image" where
  "resize base_image sz =
     (if fst sz < 1 \<or> snd sz < 1 then Inl ValueError
      else Inr \<lparr>im_mode = RGBA, im_size = sz, im_source = base_image, im_ops = []\<rparr>)"

definition draw_text :: "'a image \<Rightarrow> int \<times> int \<Rightarrow> string \<Rightarrow> font \<Rightarrow> rgba \<Rightarrow> 'a image" where
  "draw_text frame xy message fnt fill =
     frame\<lparr>im_ops := im_ops frame @ [DrawText xy message fnt fill]\<rparr>"

text \<open>
  \<^verbatim>\<open>frame.alpha_composite(heart_img, dest=...)\<close>. Pillow takes a destination with
  negative coordinates (from release 8.2 on; \<^verbatim>\<open>textsize\<close>, which the program also
  calls, exists up to 9.5): it crops the frame at the overlay's box, composites, and
  pastes the result back, and the paste keeps only what lies on the frame.
  \<open>composite_box\<close> is the box of the frame that the paste writes.
\<close>

definition alpha_composite :: "'a image \<Rightarrow> sprite \<Rightarrow> int \<times> int \<Rightarrow> 'a image" where
  "alpha_composite frame im dest =
     frame\<lparr>im_ops := im_ops frame @ [AlphaComposite im dest]\<rparr>"


definition convert_rgb :: "'a image \<Rightarrow> 'a image" where
  "convert_rgb frame = frame\<lparr>im_mode := RGB\<rparr>"

definition blank_720 :: "unit image" where
  "blank_720 = \<lparr>im_mode = RGBA, im_size = (720, 720), im_source = (), im_ops = []\<rparr>"

subsection \<open>The heart sprite: \<^verbatim>\<open>create_heart\<close>\<close>

definition heart_color :: rgba where
  "heart_color = (255, 105, 180, 200)"

definition create_heart :: "int \<Rightarrow> rgba \<Rightarrow> sprite" where
  "create_heart sz color =
     (let radius = sz div 2;
          circle_radius = rat_of_int radius * (65 / 100);
          circle_offset = rat_of_int radius * (35 / 100);
          r = rat_of_int radius
      in \<lparr>sp_mode = RGBA, sp_size = (sz, sz), sp_fill = (0, 0, 0, 0),
          sp_shapes =
            [Ellipse (r - 2 * circle_radius + circle_offset, r - 2 * circle_radius,
                      r + circle_offset, r) color,
             Ellipse (r - circle_offset, r - 2 * circle_radius,
                      r + 2 * circle_radius - circle_offset, r) color,
             Polygon [(r - 2 * circle_radius + circle_offset, r - circle_radius),
                      (r + 2 * circle_radius - circle_offset, r - circle_radius),
                      (r, rat_of_int sz)] color]\<rparr>)"

subsection \<open>Particles\<close>

record heart =
  h_start :: int
  h_x :: int
  h_size :: int

definition heart_count :: nat where
  "heart_count = 15"

text \<open>
  The loop \<^verbatim>\<open>for _ in range(heart_count)\<close>; \<open>i\<close> counts the calls of the random module
  made so far. Each round draws \<^verbatim>\<open>start_frame\<close>, \<^verbatim>\<open>x_pos\<close> and \<^verbatim>\<open>size\<close>, in this order.
\<close>

fun gen_hearts :: "rng \<Rightarrow> nat \<Rightarrow> nat \<Rightarrow> int \<Rightarrow> int \<Rightarrow> py_error + heart list" where
  "gen_hearts g i 0 total_frames width = Inr []"
| "gen_hearts g i (Suc n) total_frames width =
     (case randint g i 0 (total_frames div 2) of
        Inl e \<Rightarrow> Inl e
      | Inr start_frame \<Rightarrow>
     (case randint g (i + 1) 0 width of
        Inl e \<Rightarrow> Inl e
      | Inr x_pos \<Rightarrow>
     (case randint g (i + 2) (py_int (rat_of_int width * (3 / 100)))
                             (py_int (rat_of_int width * (8 / 100))) of
        Inl e \<Rightarrow> Inl e
      | Inr sz \<Rightarrow>
     (case gen_hearts g (i + 3) n total_frames width of
        Inl e \<Rightarrow> Inl e
      | Inr hearts \<Rightarrow>
          Inr (\<lparr>h_start = start_frame, h_x = x_pos, h_size = sz\<rparr> # hearts)))))"

subsection \<open>The frame loop\<close>

text \<open>
  What the frame loop mutates: the number of draws taken from the random module, the
  dictionary \<^verbatim>\<open>heart_cache\<close>, and (for the claims about the cache) a count of the calls
  of \<^verbatim>\<open>create_heart\<close>.
\<close>

record run_state =
  draws :: nat
  heart_cache :: "int \<rightharpoonup> sprite"
  raster_calls :: nat

text \<open>What the frame loop reads: locals of \<^verbatim>\<open>generate_frames\<close> set before the loop.\<close>

record 'a scene =
  sc_bg :: "'a image"
  sc_message :: string
  sc_font :: font
  sc_width :: int
  sc_height :: int
  sc_total_frames :: int
  sc_text_w :: int
  sc_msg_y :: int
  sc_hearts :: "heart list"

text \<open>Lines 162--163: fall progress \<open>t\<close> and vertical position \<open>y\<close> at frame \<open>frame_idx\<close>.\<close>

definition fall_y :: "int \<Rightarrow> int \<Rightarrow> heart \<Rightarrow> int \<Rightarrow> py_error + rat" where
  "fall_y total_frames height h frame_idx =
     (case truediv (frame_idx - h_start h) (total_frames - h_start h) of
        Inl e \<Rightarrow> Inl e
      | Inr t \<Rightarrow> Inr (- rat_of_int (h_size h) + t * rat_of_int (height + h_size h * 2)))"

text \<open>Lines 168--170: the sprite of a size, rasterized on the first request only.\<close>

definition fetch_heart :: "int \<Rightarrow> run_state \<Rightarrow> py_error + sprite \<times> run_state" where
  "fetch_heart sz st =
     (let st1 = (if heart_cache st sz = None
                 then st\<lparr>heart_cache := (heart_cache st)(sz \<mapsto> create_heart sz heart_color),
                         raster_calls := Suc (raster_calls st)\<rparr>
                 else st)
      in case heart_cache st1 sz of
           None \<Rightarrow> Inl KeyError
         | Some heart_img \<Rightarrow> Inr (heart_img, st1))"

text \<open>Line 172: the drift, from a draw \<open>u\<close> of \<^verbatim>\<open>random.random()\<close>.\<close>

definition drift_of :: "rat \<Rightarrow> int \<Rightarrow> int" where
  "drift_of u sz = py_int ((u - 1 / 2) * rat_of_int sz * (2 / 10))"

text \<open>Lines 173--174: the destination of the sprite.\<close>

definition dest_of :: "heart \<Rightarrow> int \<Rightarrow> rat \<Rightarrow> int \<times> int" where
  "dest_of h drift y =
     (py_int (rat_of_int (h_x h) - rat_of_int (h_size h) / 2 + rat_of_int drift), py_int y)"

text \<open>The body of \<^verbatim>\<open>for h in hearts\<close>, lines 158--176.\<close>

definition draw_heart ::
  "rng \<Rightarrow> int \<Rightarrow> int \<Rightarrow> int \<Rightarrow> heart \<Rightarrow> run_state \<times> 'a image \<Rightarrow> py_error + run_state \<times> 'a image"
where
  "draw_heart g total_frames height frame_idx h sf =
     (let rel = frame_idx - h_start h in
      if rel < 0 then Inr sf
      else
        (case fall_y total_frames height h frame_idx of
           Inl e \<Rightarrow> Inl e
         | Inr y \<Rightarrow>
             if y > rat_of_int height then Inr sf
             else
               (case fetch_heart (h_size h) (fst sf) of
                  Inl e \<Rightarrow> Inl e
                | Inr (heart_img, st1) \<Rightarrow>
                    (let drift = drift_of (random_float g (draws st1)) (h_size h)
                     in Inr (st1\<lparr>draws := Suc (draws st1)\<rparr>,
                             alpha_composite (snd sf) heart_img (dest_of h drift y))))))"

fun draw_hearts ::
  "rng \<Rightarrow> int \<Rightarrow> int \<Rightarrow> int \<Rightarrow> heart list \<Rightarrow> run_state \<times> 'a image \<Rightarrow> py_error + run_state \<times> 'a image"
where
  "draw_hearts g total_frames height frame_idx [] sf = Inr sf"
| "draw_hearts g total_frames height frame_idx (h # hs) sf =
     (case draw_heart g total_frames height frame_idx h sf of
        Inl e \<Rightarrow> Inl e
      | Inr sf' \<Rightarrow> draw_hearts g total_frames height frame_idx hs sf')"

text \<open>Line 150: the horizontal origin of the caption.\<close>

definition msg_x_of :: "int \<Rightarrow> int \<Rightarrow> int" where
  "msg_x_of width text_w = py_int (rat_of_int (width - text_w) / 2)"

definition shadow_offset :: int where
  "shadow_offset = 2"

text \<open>The body of \<^verbatim>\<open>for frame_idx in range(total_frames)\<close>, lines 147--177.\<close>

definition render_frame ::
  "rng \<Rightarrow> 'a scene \<Rightarrow> int \<Rightarrow> run_state \<Rightarrow> py_error + run_state \<times> 'a image"
where
  "render_frame g sc frame_idx st =
     (let frame = sc_bg sc;
          msg_x = msg_x_of (sc_width sc) (sc_text_w sc);
          frame1 = draw_text frame (msg_x + shadow_offset, sc_msg_y sc + shadow_offset)
                     (sc_message sc) (sc_font sc) (0, 0, 0, 160);
          frame2 = draw_text frame1 (msg_x, sc_msg_y sc)
                     (sc_message sc) (sc_font sc) (255, 255, 255, 255)
      in case draw_hearts g (sc_total_frames sc) (sc_height sc) frame_idx (sc_hearts sc)
                (st, frame2) of
           Inl e \<Rightarrow> Inl e
         | Inr (st', frame3) \<Rightarrow> Inr (st', convert_rgb frame3))"

fun render_frames ::
  "rng \<Rightarrow> 'a scene \<Rightarrow> int list \<Rightarrow> run_state \<Rightarrow> py_error + run_state \<times> 'a image list"
where
  "render_frames g sc [] st = Inr (st, [])"
| "render_frames g sc (frame_idx # rest) st =
     (case render_frame g sc frame_idx st of
        Inl e \<Rightarrow> Inl e
      | Inr (st', frame) \<Rightarrow>
          (case render_frames g sc rest st' of
             Inl e \<Rightarrow> Inl e
           | Inr (st'', frames) \<Rightarrow> Inr (st'', frame # frames)))"

text \<open>
  Two predicates for the statements below. A heart is \<open>visible\<close> at a frame when the
  loop body reaches the compositing lines: \<^verbatim>\<open>rel >= 0\<close> and not \<^verbatim>\<open>y > height\<close>. A state
  is \<open>cache_ok\<close> when the cache holds, under each of its finitely many keys, the heart
  of that size, and \<^verbatim>\<open>create_heart\<close> was called once per key.
\<close>

definition visible :: "int \<Rightarrow> int \<Rightarrow> int \<Rightarrow> heart \<Rightarrow> bool" where
  "visible total_frames height frame_idx h =
     (h_start h \<le> frame_idx \<and>
      (case fall_y total_frames height h frame_idx of
         Inl e \<Rightarrow> False
       | Inr y \<Rightarrow> y \<le> rat_of_int height))"

definition cache_ok :: "run_state \<Rightarrow> bool" where
  "cache_ok st =
     (finite (dom (heart_cache st)) \<and> raster_calls st = card (dom (heart_cache st)) \<and>
      (\<forall>sz im. heart_cache st sz = Some im \<longrightarrow> im = create_heart sz heart_color))"

subsection \<open>\<^verbatim>\<open>generate_frames\<close>\<close>

definition init_state :: run_state where
  "init_state = \<lparr>draws = 3 * heart_count, heart_cache = Map.empty, raster_calls = 0\<rparr>"

text \<open>
  Everything before the frame loop, lines 124--144: the locals the loop reads, or the
  exception raised on the way.
\<close>

definition prepare ::
  "env \<Rightarrow> rng \<Rightarrow> 'a \<Rightarrow> string \<Rightarrow> int \<Rightarrow> int \<Rightarrow> int \<Rightarrow> int \<Rightarrow> py_error + 'a scene"
where
  "prepare E g base_image message width height fps duration =
     (case resize base_image (width, height) of
        Inl e \<Rightarrow> Inl e
      | Inr bg \<Rightarrow>
     (let total_frames = fps * duration in
      case gen_hearts g 0 heart_count total_frames width of
        Inl e \<Rightarrow> Inl e
      | Inr hearts \<Rightarrow>
     (let font_size = py_int (rat_of_int height * (6 / 100)) in
      case load_font E font_size of
        Inl e \<Rightarrow> Inl e
      | Inr fnt \<Rightarrow>
     (let text_w = fst (textsize E message fnt);
          msg_y = py_int (rat_of_int height * (5 / 100))
      in Inr \<lparr>sc_bg = bg, sc_message = message, sc_font = fnt, sc_width = width,
              sc_height = height, sc_total_frames = total_frames, sc_text_w = text_w,
              sc_msg_y = msg_y, sc_hearts = hearts\<rparr>))))"

text \<open>The run with its final state, and \<^verbatim>\<open>generate_frames\<close>, which returns the frames.\<close>

definition run_frames ::
  "env \<Rightarrow> rng \<Rightarrow> 'a \<Rightarrow> string \<Rightarrow> int \<Rightarrow> int \<Rightarrow> int \<Rightarrow> int \<Rightarrow> py_error + run_state \<times> 'a image list"
where
  "run_frames E g base_image message width height fps duration =
     (case prepare E g base_image message width height fps duration of
        Inl e \<Rightarrow> Inl e
      | Inr sc \<Rightarrow> render_frames g sc [0..sc_total_frames sc - 1] init_state)"

definition generate_frames ::
  "env \<Rightarrow> rng \<Rightarrow> 'a \<Rightarrow> string \<Rightarrow> int \<Rightarrow> int \<Rightarrow> int \<Rightarrow> int \<Rightarrow> py_error + 'a image list"
where
  "generate_frames E g base_image message width height fps duration =
     (case run_frames E g base_image message width height fps duration of
        Inl e \<Rightarrow> Inl e
      | Inr (st, frames) \<Rightarrow> Inr frames)"

section \<open>Properties\<close>

subsection \<open>Truncation and random draws\<close>



lemma py_int_mono:
  assumes "a \<le> b"
  shows "py_int a \<le> py_int b"
proof (cases "0 \<le> a")
  case True
  with assms show ?thesis
    by (simp add: py_int_def floor_mono)
next
  case False
  show ?thesis
  proof (cases "0 \<le> b")
    case True
    have "\<lceil>a\<rceil> \<le> 0" using False by (simp add: ceiling_le_iff)
    moreover have "0 \<le> \<lfloor>b\<rfloor>" using True by simp
    ultimately have "\<lceil>a\<rceil> \<le> \<lfloor>b\<rfloor>" by linarith
    then show ?thesis using False True by (simp add: py_int_def)
  next
    case b: False
    with False assms show ?thesis
      by (simp add: py_int_def ceiling_mono)
  qed
qed

lemma py_int_le: "0 \<le> q \<Longrightarrow> rat_of_int (py_int q) \<le> q"
  by (simp add: py_int_def)

lemma py_int_close: "\<bar>rat_of_int (py_int q) - q\<bar> < 1"
  unfolding py_int_def by (auto simp: abs_less_iff) linarith+

lemma randint_bounds: "randint g i a b = Inr n \<Longrightarrow> a \<le> n \<and> n \<le> b"
  unfolding randint_def
  by (auto split: if_splits simp: pos_mod_sign) (smt (verit) pos_mod_bound)

lemma randint_ok: "a \<le> b \<Longrightarrow> \<exists>n. randint g i a b = Inr n"
  by (simp add: randint_def)

lemma randint_error: "randint g i a b = Inl e \<Longrightarrow> e = ValueError"
  by (auto simp: randint_def split: if_splits)

subsection \<open>Particle generation\<close>

lemma gen_hearts_length: "gen_hearts g i n T w = Inr hs \<Longrightarrow> length hs = n"
  by (induction n arbitrary: i hs) (auto split: sum.splits)

lemma gen_hearts_bounds:
  "gen_hearts g i n T w = Inr hs \<Longrightarrow> h \<in> set hs \<Longrightarrow>
     0 \<le> h_start h \<and> h_start h \<le> T div 2 \<and> 0 \<le> h_x h \<and> h_x h \<le> w \<and>
     py_int (rat_of_int w * (3 / 100)) \<le> h_size h \<and>
     h_size h \<le> py_int (rat_of_int w * (8 / 100))"
proof (induction n arbitrary: i hs)
  case 0
  then show ?case by simp
next
  case (Suc n)
  then show ?case
    by (auto split: sum.splits dest!: randint_bounds)
qed

lemma gen_hearts_error: "gen_hearts g i n T w = Inl e \<Longrightarrow> e = ValueError"
  by (induction n arbitrary: i) (auto split: sum.splits dest: randint_error)

lemma size_range_ok:
  "0 \<le> w \<Longrightarrow> py_int (rat_of_int w * (3 / 100)) \<le> py_int (rat_of_int w * (8 / 100))"
  by (rule py_int_mono) (simp add: mult_left_mono)

lemma gen_hearts_ok:
  assumes "0 \<le> T" and "0 \<le> w"
  shows "\<exists>hs. gen_hearts g i n T w = Inr hs"
proof (induction n arbitrary: i)
  case 0
  show ?case by simp
next
  case (Suc n)
  have a: "(0::int) \<le> T div 2" using assms(1) by simp
  obtain s where s: "randint g i 0 (T div 2) = Inr s"
    using randint_ok [OF a] by blast
  obtain x where x: "randint g (i + 1) 0 w = Inr x"
    using randint_ok [OF assms(2)] by blast
  obtain z where z: "randint g (i + 2) (py_int (rat_of_int w * (3 / 100)))
                       (py_int (rat_of_int w * (8 / 100))) = Inr z"
    using randint_ok [OF size_range_ok [OF assms(2)]] by blast
  obtain hs where hs: "gen_hearts g (i + 3) n T w = Inr hs"
    using Suc by blast
  show ?case using s x z hs by simp
qed

subsection \<open>Fonts\<close>

lemma try_paths_ok: "\<exists>f. try_paths E sz ps = Inr f"
  by (induction ps) (auto simp: load_default_def split: sum.splits)

lemma try_paths_default:
  "\<forall>p\<in>set ps. \<not> isfile E p \<or> isl (truetype E p sz) \<Longrightarrow>
     try_paths E sz ps = Inr DefaultFont"
  by (induction ps) (auto simp: load_default_def split: sum.splits)

lemma load_font_ok: "\<exists>f. load_font E sz = Inr f"
  by (simp add: load_font_def try_paths_ok)

subsection \<open>The heart sprite\<close>

text \<open>
  What \<^verbatim>\<open>create_heart\<close> fixes by its calls: a canvas of \<open>s \<times> s\<close> in mode RGBA, filled
  with the transparent colour, on which two ellipses and one polygon are drawn. Both
  ellipses have a bounding box of side \<open>2 \<times> 0.65 \<times> (s div 2)\<close>: they are circles of
  radius \<open>0.65 \<times> (s div 2)\<close>, and the boxes are moved by \<open>0.35 \<times> (s div 2)\<close> towards the
  middle. Which pixels Pillow paints for these shapes is outside this model.
\<close>

lemma create_heart_canvas:
  "sp_mode (create_heart s c) = RGBA \<and> sp_size (create_heart s c) = (s, s) \<and>
   sp_fill (create_heart s c) = (0, 0, 0, 0) \<and> length (sp_shapes (create_heart s c)) = 3"
  by (simp add: create_heart_def Let_def)

lemma create_heart_circles:
  assumes "sp_shapes (create_heart s c) = [Ellipse (a0, b0, a1, b1) c0, Ellipse (a2, b2, a3, b3) c1, t]"
  shows "a1 - a0 = 2 * (65 / 100 * rat_of_int (s div 2)) \<and> b1 - b0 = a1 - a0 \<and>
         a3 - a2 = a1 - a0 \<and> b3 - b2 = a1 - a0 \<and> c0 = c \<and> c1 = c"
  using assms by (auto simp: create_heart_def Let_def)

subsection \<open>The sprite cache\<close>

lemma fetch_heart_miss:
  "heart_cache st sz = None \<Longrightarrow>
     fetch_heart sz st =
       Inr (create_heart sz heart_color,
            st\<lparr>heart_cache := (heart_cache st)(sz \<mapsto> create_heart sz heart_color),
               raster_calls := Suc (raster_calls st)\<rparr>)"
  by (simp add: fetch_heart_def)

lemma fetch_heart_hit: "heart_cache st sz = Some im \<Longrightarrow> fetch_heart sz st = Inr (im, st)"
  by (simp add: fetch_heart_def)

lemma fetch_heart_ok: "\<exists>im st1. fetch_heart sz st = Inr (im, st1)"
  by (cases "heart_cache st sz") (simp_all add: fetch_heart_miss fetch_heart_hit)

lemma fetch_heart_draws: "fetch_heart sz st = Inr (im, st1) \<Longrightarrow> draws st1 = draws st"
  by (cases "heart_cache st sz") (auto simp: fetch_heart_miss fetch_heart_hit)

lemma fetch_heart_cache_ok:
  assumes "fetch_heart sz st = Inr (im, st1)" and "cache_ok st"
  shows "cache_ok st1 \<and> im = create_heart sz heart_color \<and> heart_cache st1 sz = Some im"
proof (cases "heart_cache st sz")
  case None
  then have nd: "sz \<notin> dom (heart_cache st)" by (simp add: domIff)
  from None assms(1) have st1: "st1 = st\<lparr>heart_cache := (heart_cache st)(sz \<mapsto> create_heart sz heart_color),
               raster_calls := Suc (raster_calls st)\<rparr>" and im: "im = create_heart sz heart_color"
    by (auto simp: fetch_heart_miss)
  from assms(2) nd show ?thesis
    unfolding st1 im cache_ok_def by (auto simp: card_insert_if)
next
  case (Some a)
  with assms show ?thesis
    by (auto simp: fetch_heart_hit cache_ok_def)
qed

lemma fetch_heart_keeps:
  "fetch_heart sz st = Inr (im, st1) \<Longrightarrow> heart_cache st k = Some v \<Longrightarrow> heart_cache st1 k = Some v"
  by (cases "heart_cache st sz") (auto simp: fetch_heart_miss fetch_heart_hit)

subsection \<open>One heart on one frame\<close>

lemma fall_y_eq:
  "h_start h \<le> f \<Longrightarrow> f < T \<Longrightarrow>
     fall_y T H h f =
       Inr (- rat_of_int (h_size h) +
            rat_of_int (f - h_start h) / rat_of_int (T - h_start h) * rat_of_int (H + h_size h * 2))"
  by (simp add: fall_y_def truediv_def)

lemma draw_heart_before: "f < h_start h \<Longrightarrow> draw_heart g T H f h sf = Inr sf"
  by (simp add: draw_heart_def)

lemma draw_heart_below:
  "h_start h \<le> f \<Longrightarrow> fall_y T H h f = Inr y \<Longrightarrow> rat_of_int H < y \<Longrightarrow>
     draw_heart g T H f h sf = Inr sf"
  by (simp add: draw_heart_def)

lemma draw_heart_hidden: "f < T \<Longrightarrow> \<not> visible T H f h \<Longrightarrow> draw_heart g T H f h sf = Inr sf"
  by (cases "h_start h \<le> f") (auto simp: draw_heart_def visible_def fall_y_eq split: sum.splits)

lemma draw_heart_visible:
  assumes "visible T H f h" and "fall_y T H h f = Inr y" and "fetch_heart (h_size h) st = Inr (im, st1)"
  shows "draw_heart g T H f h (st, fr) =
           Inr (st1\<lparr>draws := Suc (draws st)\<rparr>,
                alpha_composite fr im (dest_of h (drift_of (random_float g (draws st)) (h_size h)) y))"
  using assms fetch_heart_draws [OF assms(3)]
  by (simp add: draw_heart_def visible_def Let_def)

lemma draw_heart_ok:
  assumes "f < T"
  shows "\<exists>sf'. draw_heart g T H f h sf = Inr sf'"
proof (cases "visible T H f h")
  case False
  with assms show ?thesis by (simp add: draw_heart_hidden)
next
  case True
  then obtain y where y: "fall_y T H h f = Inr y"
    by (auto simp: visible_def split: sum.splits)
  obtain im st1 where "fetch_heart (h_size h) (fst sf) = Inr (im, st1)"
    using fetch_heart_ok by blast
  from draw_heart_visible [OF True y this, of g "snd sf"] show ?thesis by simp
qed

lemma draw_heart_cache_ok:
  assumes "draw_heart g T H f h (st, fr) = Inr (st', fr')" and "cache_ok st"
  shows "cache_ok st'"
proof -
  have c: "cache_ok (s\<lparr>draws := d\<rparr>) = cache_ok s" for s d
    by (simp add: cache_ok_def)
  from assms show ?thesis
    by (auto simp: draw_heart_def Let_def c split: if_splits sum.splits
             dest: fetch_heart_cache_ok)
qed

lemma draw_heart_frame:
  assumes "draw_heart g T H f h (st, fr) = Inr (st', fr')"
  shows "im_mode fr' = im_mode fr \<and> im_size fr' = im_size fr \<and> im_source fr' = im_source fr \<and>
         (\<exists>cs. im_ops fr' = im_ops fr @ cs \<and> (\<forall>c\<in>set cs. is_composite c))"
  using assms
  by (auto simp: draw_heart_def Let_def alpha_composite_def split: if_splits sum.splits)

subsection \<open>All hearts on one frame\<close>

lemma draw_hearts_ok: "f < T \<Longrightarrow> \<exists>sf'. draw_hearts g T H f hs sf = Inr sf'"
proof (induction hs arbitrary: sf)
  case Nil
  show ?case by simp
next
  case (Cons h hs)
  obtain sf1 where "draw_heart g T H f h sf = Inr sf1"
    using draw_heart_ok [OF Cons.prems] by blast
  with Cons.IH [OF Cons.prems, of sf1] show ?case by simp
qed

lemma draw_hearts_cache_ok:
  "draw_hearts g T H f hs (st, fr) = Inr (st', fr') \<Longrightarrow> cache_ok st \<Longrightarrow> cache_ok st'"
proof (induction hs arbitrary: st fr)
  case Nil
  then show ?case by simp
next
  case (Cons h hs)
  then show ?case
    by (auto split: sum.splits dest: draw_heart_cache_ok)
qed

lemma draw_hearts_frame:
  "draw_hearts g T H f hs (st, fr) = Inr (st', fr') \<Longrightarrow>
     im_mode fr' = im_mode fr \<and> im_size fr' = im_size fr \<and> im_source fr' = im_source fr \<and>
     (\<exists>cs. im_ops fr' = im_ops fr @ cs \<and> (\<forall>c\<in>set cs. is_composite c))"
proof (induction hs arbitrary: st fr)
  case Nil
  then show ?case by simp
next
  case (Cons h hs)
  from Cons.prems obtain st1 fr1 where
    one: "draw_heart g T H f h (st, fr) = Inr (st1, fr1)" and
    rest: "draw_hearts g T H f hs (st1, fr1) = Inr (st', fr')"
    by (auto split: sum.splits)
  from draw_heart_frame [OF one] Cons.IH [OF rest] show ?case
    by auto
qed


subsection \<open>One frame\<close>

lemma render_frame_ok:
  assumes "f < sc_total_frames sc"
  shows "\<exists>st' fr. render_frame g sc f st = Inr (st', fr)"
proof -
  obtain sf' where "draw_hearts g (sc_total_frames sc) (sc_height sc) f (sc_hearts sc)
        (st, draw_text (draw_text (sc_bg sc)
            (msg_x_of (sc_width sc) (sc_text_w sc) + shadow_offset, sc_msg_y sc + shadow_offset)
            (sc_message sc) (sc_font sc) (0, 0, 0, 160))
          (msg_x_of (sc_width sc) (sc_text_w sc), sc_msg_y sc)
          (sc_message sc) (sc_font sc) (255, 255, 255, 255)) = Inr sf'"
    using draw_hearts_ok [OF assms] by blast
  then show ?thesis
    by (cases sf') (simp add: render_frame_def Let_def)
qed

lemma render_frame_cache_ok:
  "render_frame g sc f st = Inr (st', fr) \<Longrightarrow> cache_ok st \<Longrightarrow> cache_ok st'"
  by (auto simp: render_frame_def Let_def split: sum.splits dest: draw_hearts_cache_ok)

lemma render_frame_shape:
  assumes "render_frame g sc f st = Inr (st', fr)"
  shows "im_mode fr = RGB \<and> im_size fr = im_size (sc_bg sc) \<and> im_source fr = im_source (sc_bg sc) \<and>
         (\<exists>cs. im_ops fr = im_ops (sc_bg sc) @
                  [DrawText (msg_x_of (sc_width sc) (sc_text_w sc) + shadow_offset,
                             sc_msg_y sc + shadow_offset)
                     (sc_message sc) (sc_font sc) (0, 0, 0, 160),
                   DrawText (msg_x_of (sc_width sc) (sc_text_w sc), sc_msg_y sc)
                     (sc_message sc) (sc_font sc) (255, 255, 255, 255)] @ cs \<and>
                (\<forall>c\<in>set cs. is_composite c))"
proof -
  from assms obtain fr3 where
    dh: "draw_hearts g (sc_total_frames sc) (sc_height sc) f (sc_hearts sc)
        (st, draw_text (draw_text (sc_bg sc)
            (msg_x_of (sc_width sc) (sc_text_w sc) + shadow_offset, sc_msg_y sc + shadow_offset)
            (sc_message sc) (sc_font sc) (0, 0, 0, 160))
          (msg_x_of (sc_width sc) (sc_text_w sc), sc_msg_y sc)
          (sc_message sc) (sc_font sc) (255, 255, 255, 255)) = Inr (st', fr3)"
    and fr: "fr = convert_rgb fr3"
    by (auto simp: render_frame_def Let_def split: sum.splits)
  from draw_hearts_frame [OF dh] show ?thesis
    by (auto simp: fr convert_rgb_def draw_text_def)
qed


subsection \<open>All frames\<close>

lemma render_frames_ok:
  "\<forall>f\<in>set fs. f < sc_total_frames sc \<Longrightarrow> \<exists>st' frs. render_frames g sc fs st = Inr (st', frs)"
proof (induction fs arbitrary: st)
  case Nil
  show ?case by simp
next
  case (Cons f fs)
  then have "f < sc_total_frames sc" by simp
  then obtain st1 fr where "render_frame g sc f st = Inr (st1, fr)"
    using render_frame_ok by blast
  moreover obtain st2 frs where "render_frames g sc fs st1 = Inr (st2, frs)"
    using Cons by fastforce
  ultimately show ?case by simp
qed

lemma render_frames_length:
  "render_frames g sc fs st = Inr (st', frs) \<Longrightarrow> length frs = length fs"
  by (induction fs arbitrary: st frs) (auto split: sum.splits)

lemma render_frames_cache_ok:
  "render_frames g sc fs st = Inr (st', frs) \<Longrightarrow> cache_ok st \<Longrightarrow> cache_ok st'"
proof (induction fs arbitrary: st frs)
  case Nil
  then show ?case by simp
next
  case (Cons f fs)
  from Cons.prems(1) obtain st1 fr frs1 where
    one: "render_frame g sc f st = Inr (st1, fr)" and
    rest: "render_frames g sc fs st1 = Inr (st', frs1)"
    by (auto split: sum.splits)
  from Cons.IH [OF rest render_frame_cache_ok [OF one Cons.prems(2)]] show ?case .
qed

lemma render_frames_nth:
  "render_frames g sc fs st = Inr (st', frs) \<Longrightarrow> cache_ok st \<Longrightarrow> j < length fs \<Longrightarrow>
     \<exists>s s'. cache_ok s \<and> render_frame g sc (fs ! j) s = Inr (s', frs ! j)"
proof (induction fs arbitrary: st frs j)
  case Nil
  then show ?case by simp
next
  case (Cons f fs)
  from Cons.prems(1) obtain st1 fr frs1 where
    one: "render_frame g sc f st = Inr (st1, fr)" and
    rest: "render_frames g sc fs st1 = Inr (st', frs1)" and
    frs: "frs = fr # frs1"
    by (auto split: sum.splits)
  show ?case
  proof (cases j)
    case 0
    with one Cons.prems(2) frs show ?thesis by auto
  next
    case (Suc k)
    have "cache_ok st1" using render_frame_cache_ok [OF one Cons.prems(2)] .
    from Cons.IH [OF rest this, of k] Cons.prems(3) Suc frs show ?thesis by simp
  qed
qed

subsection \<open>The whole run\<close>

lemma init_state_cache_ok: "cache_ok init_state"
  by (simp add: cache_ok_def init_state_def)

lemma prepare_scene:
  assumes "prepare E g base message w h fps d = Inr sc"
  shows "sc_total_frames sc = fps * d \<and> sc_width sc = w \<and> sc_height sc = h \<and>
         sc_message sc = message \<and>
         sc_bg sc = \<lparr>im_mode = RGBA, im_size = (w, h), im_source = base, im_ops = []\<rparr> \<and>
         gen_hearts g 0 heart_count (fps * d) w = Inr (sc_hearts sc) \<and>
         load_font E (py_int (rat_of_int h * (6 / 100))) = Inr (sc_font sc) \<and>
         sc_text_w sc = fst (textsize E message (sc_font sc)) \<and>
         sc_msg_y sc = py_int (rat_of_int h * (5 / 100)) \<and> 0 < w \<and> 0 < h"
  using assms
  by (auto simp: prepare_def resize_def Let_def split: sum.splits if_splits)

lemma prepare_ok:
  assumes "0 < w" and "0 < h" and "0 \<le> fps * d"
  shows "\<exists>sc. prepare E g base message w h fps d = Inr sc"
proof -
  obtain hs where "gen_hearts g 0 heart_count (fps * d) w = Inr hs"
    using gen_hearts_ok [OF assms(3), of w] assms(1) by fastforce
  moreover obtain fnt where "load_font E (py_int (rat_of_int h * (6 / 100))) = Inr fnt"
    using load_font_ok by blast
  ultimately show ?thesis using assms(1,2)
    by (simp add: prepare_def resize_def Let_def)
qed

lemma prepare_error: "prepare E g base message w h fps d = Inl e \<Longrightarrow> e = ValueError"
  using load_font_ok [of E "py_int (rat_of_int h * (6 / 100))"]
  by (auto simp: prepare_def resize_def Let_def split: sum.splits if_splits dest: gen_hearts_error)

lemma upto_below: "\<forall>f\<in>set [0..T - 1]. f < (T::int)"
  by auto

lemma run_frames_ok:
  assumes "0 < w" and "0 < h" and "0 \<le> fps * d"
  shows "\<exists>st frames. run_frames E g base message w h fps d = Inr (st, frames)"
proof -
  obtain sc where sc: "prepare E g base message w h fps d = Inr sc"
    using prepare_ok [OF assms, of E g base message] by blast
  obtain st frames where
    "render_frames g sc [0..sc_total_frames sc - 1] init_state = Inr (st, frames)"
    using render_frames_ok [OF upto_below] by blast
  with sc show ?thesis by (simp add: run_frames_def)
qed

lemma run_frames_error: "run_frames E g base message w h fps d = Inl e \<Longrightarrow> e = ValueError"
proof (cases "prepare E g base message w h fps d")
  case (Inl e')
  assume "run_frames E g base message w h fps d = Inl e"
  with Inl have "e' = e" by (simp add: run_frames_def)
  with prepare_error [OF Inl] show ?thesis by simp
next
  case (Inr sc)
  assume a: "run_frames E g base message w h fps d = Inl e"
  obtain st frames where
    "render_frames g sc [0..sc_total_frames sc - 1] init_state = Inr (st, frames)"
    using render_frames_ok [OF upto_below] by blast
  with Inr a show ?thesis by (simp add: run_frames_def)
qed

lemma generate_frames_run:
  "generate_frames E g base message w h fps d = Inr frames \<longleftrightarrow>
     (\<exists>st. run_frames E g base message w h fps d = Inr (st, frames))"
  by (auto simp: generate_frames_def split: sum.splits)

lemma generate_frames_error:
  "generate_frames E g base message w h fps d = Inl e \<Longrightarrow> e = ValueError"
  by (auto simp: generate_frames_def split: sum.splits dest: run_frames_error)

lemma run_frames_render:
  "run_frames E g base message w h fps d = Inr (st, frames) \<longleftrightarrow>
     (\<exists>sc. prepare E g base message w h fps d = Inr sc \<and>
           render_frames g sc [0..fps * d - 1] init_state = Inr (st, frames))"
  by (auto simp: run_frames_def split: sum.splits dest: prepare_scene)

section \<open>The claims\<close>

subsection \<open>Font loading\<close>

lemma try_paths_find:
  "try_paths E sz ps =
     (case find (\<lambda>p. isfile E p \<and> \<not> isl (truetype E p sz)) ps of
        None \<Rightarrow> Inr DefaultFont
      | Some p \<Rightarrow> truetype E p sz)"
  by (induction ps) (auto simp: load_default_def split: sum.splits)

text \<open>
  C6. For every requested font size \<^verbatim>\<open>load_font\<close> returns a font and never raises. It
  goes through its list of font paths in order and returns what \<^verbatim>\<open>truetype\<close> gives for
  the first path that is a file and loads; when no path is a file, or every path that
  is one fails to load, it returns the built-in default font.
\<close>

theorem C6_load_font_never_fails:
  "(\<exists>f. load_font E sz = Inr f) \<and>
   load_font E sz =
     (case find (\<lambda>p. isfile E p \<and> \<not> isl (truetype E p sz)) font_paths of
        None \<Rightarrow> Inr DefaultFont
      | Some p \<Rightarrow> truetype E p sz) \<and>
   ((\<forall>p\<in>set font_paths. \<not> isfile E p \<or> isl (truetype E p sz)) \<longrightarrow>
      load_font E sz = Inr DefaultFont)"
  using load_font_ok [of E sz] try_paths_find [of E sz font_paths]
    try_paths_default [of font_paths E sz]
  by (auto simp: load_font_def)

theorem C6_witness:
  "list_all (\<lambda>p. \<not> isfile no_fonts p) font_paths \<and> load_font no_fonts 43 = Inr DefaultFont"
proof -
  have none: "\<forall>p\<in>set font_paths. \<not> isfile no_fonts p \<or> isl (truetype no_fonts p 43)"
    by (simp add: no_fonts_def)
  moreover have "list_all (\<lambda>p. \<not> isfile no_fonts p) font_paths"
    by (simp add: no_fonts_def list_all_iff)
  ultimately show ?thesis
    using C6_load_font_never_fails [of no_fonts 43] by blast
qed

subsection \<open>Division by zero\<close>

lemma start_below_total:
  assumes "1 \<le> T" and "s \<le> T div 2"
  shows "T div 2 < T \<and> 1 \<le> T - (s::int)"
  using assms by linarith

lemma run_frames_empty:
  assumes "fps * d = 0" and "run_frames E g base message w h fps d = Inr (st, frames)"
  shows "frames = []"
  using assms by (auto simp: run_frames_render)

text \<open>
  C10. The division \<^verbatim>\<open>rel / (total_frames - h["start"])\<close> never divides by zero:
  \<^verbatim>\<open>generate_frames\<close> never raises \<^verbatim>\<open>ZeroDivisionError\<close>. When \<^verbatim>\<open>total_frames\<close> is at
  least 1, every generated heart has \<open>start \<le> total_frames div 2 < total_frames\<close>, the
  denominator is at least 1, and the position is defined at every frame index. When
  \<^verbatim>\<open>total_frames\<close> is 0 the loop body is not entered and the list returned is empty.
\<close>

theorem C10_no_division_by_zero:
  "generate_frames E g base message w h fps d \<noteq> Inl ZeroDivisionError \<and>
   (1 \<le> fps * d \<longrightarrow>
      (\<forall>hearts. gen_hearts g 0 heart_count (fps * d) w = Inr hearts \<longrightarrow>
         (\<forall>p\<in>set hearts.
            h_start p \<le> fps * d div 2 \<and> fps * d div 2 < fps * d \<and>
            1 \<le> fps * d - h_start p \<and>
            (\<forall>f. \<exists>y. fall_y (fps * d) h p f = Inr y)))) \<and>
   (fps * d = 0 \<longrightarrow>
      (\<forall>frames. generate_frames E g base message w h fps d = Inr frames \<longrightarrow> frames = []) \<and>
      (0 < w \<and> 0 < h \<longrightarrow> generate_frames E g base message w h fps d = Inr []))"
proof (intro conjI impI allI ballI)
  show "generate_frames E g base message w h fps d \<noteq> Inl ZeroDivisionError"
    using generate_frames_error [of E g base message w h fps d ZeroDivisionError] by auto
next
  fix hearts p
  assume T: "1 \<le> fps * d" and hs: "gen_hearts g 0 heart_count (fps * d) w = Inr hearts"
    and p: "p \<in> set hearts"
  from gen_hearts_bounds [OF hs p] show s: "h_start p \<le> fps * d div 2" by simp
  from start_below_total [OF T s] show "fps * d div 2 < fps * d" and n: "1 \<le> fps * d - h_start p"
    by simp_all
  fix f
  from n show "\<exists>y. fall_y (fps * d) h p f = Inr y"
    by (simp add: fall_y_def truediv_def)
next
  fix frames
  assume z: "fps * d = 0" and "generate_frames E g base message w h fps d = Inr frames"
  then obtain st where "run_frames E g base message w h fps d = Inr (st, frames)"
    unfolding generate_frames_run by blast
  from run_frames_empty [OF z this] show "frames = []" .
next
  assume z: "fps * d = 0" and "0 < w \<and> 0 < h"
  then obtain st frames where r: "run_frames E g base message w h fps d = Inr (st, frames)"
    using run_frames_ok [of w h fps d E g base message] by auto
  with run_frames_empty [OF z r] show "generate_frames E g base message w h fps d = Inr []"
    by (simp add: generate_frames_def)
qed

lemma gen_hearts_720:
  "gen_hearts zero_rng 0 heart_count 75 720 =
     Inr (replicate 15 \<lparr>h_start = 0, h_x = 0, h_size = 21\<rparr>)"
  by code_simp

theorem C10_witness:
  "gen_hearts zero_rng 0 heart_count (15 * 5) 720 =
     Inr (replicate 15 \<lparr>h_start = 0, h_x = 0, h_size = 21\<rparr>) \<and>
   (1::int) \<le> 15 * 5 - h_start \<lparr>h_start = 0, h_x = 0, h_size = 21\<rparr> \<and>
   (\<exists>y. fall_y (15 * 5) 720 \<lparr>h_start = 0, h_x = 0, h_size = 21\<rparr> 74 = Inr y) \<and>
   generate_frames no_fonts zero_rng () ''Hi'' 720 720 0 5 = Inr [] \<and>
   generate_frames no_fonts zero_rng () ''Hi'' 720 720 15 5 \<noteq> Inl ZeroDivisionError"
proof -
  have hs: "gen_hearts zero_rng 0 heart_count (15 * 5) 720 =
     Inr (replicate 15 \<lparr>h_start = 0, h_x = 0, h_size = 21\<rparr>)"
    using gen_hearts_720 by simp
  have p: "\<lparr>h_start = 0, h_x = 0, h_size = 21\<rparr> \<in> set (replicate 15 \<lparr>h_start = 0, h_x = 0, h_size = 21\<rparr>)"
    by simp
  have T: "(1::int) \<le> 15 * 5" by simp
  note a = C10_no_division_by_zero [of no_fonts zero_rng "()" "''Hi''" 720 720 15 5]
  note b = C10_no_division_by_zero [of no_fonts zero_rng "()" "''Hi''" 720 720 0 5]
  from a T hs p have "(1::int) \<le> 15 * 5 - h_start \<lparr>h_start = 0, h_x = 0, h_size = 21\<rparr> \<and>
     (\<forall>f. \<exists>y. fall_y (15 * 5) 720 \<lparr>h_start = 0, h_x = 0, h_size = 21\<rparr> f = Inr y)"
    by blast
  moreover from b have "generate_frames no_fonts zero_rng () ''Hi'' 720 720 0 5 = Inr []"
    by simp
  moreover from a have "generate_frames no_fonts zero_rng () ''Hi'' 720 720 15 5 \<noteq> Inl ZeroDivisionError"
    by blast
  ultimately show ?thesis using hs by blast
qed

subsection \<open>Particle parameters\<close>

text \<open>
  C8 as stated fails on the lower bound of the size: \<^verbatim>\<open>int(width * 0.03)\<close> truncates, so
  at the default width 720 a heart can have size 21, below \<open>0.03 \<times> 720 = 21.6\<close>.
\<close>

theorem C8_counterexample:
  "gen_hearts zero_rng 0 heart_count 75 720 =
     Inr (replicate 15 \<lparr>h_start = 0, h_x = 0, h_size = 21\<rparr>) \<and>
   \<not> (3 / 100 * rat_of_int 720 \<le> rat_of_int (h_size \<lparr>h_start = 0, h_x = 0, h_size = 21\<rparr>))"
  using gen_hearts_720 by simp

lemma prepare_720:
  "prepare no_fonts zero_rng () ''Hi'' 720 720 15 5 =
     Inr \<lparr>sc_bg = \<lparr>im_mode = RGBA, im_size = (720, 720), im_source = (), im_ops = []\<rparr>,
          sc_message = ''Hi'', sc_font = DefaultFont, sc_width = 720, sc_height = 720,
          sc_total_frames = 75, sc_text_w = 12, sc_msg_y = 36,
          sc_hearts = replicate 15 \<lparr>h_start = 0, h_x = 0, h_size = 21\<rparr>\<rparr>"
proof -
  have f: "load_font no_fonts sz = Inr DefaultFont" for sz
    by (simp add: load_font_def font_paths_def no_fonts_def load_default_def)
  have t: "textsize no_fonts ''Hi'' DefaultFont = (12, 11)"
    by (simp add: no_fonts_def)
  show ?thesis
    using gen_hearts_720 by (simp add: prepare_def resize_def f t py_int_def)
qed

text \<open>
  C8, amended. The list of hearts is generated once, before the frame loop, which only
  reads it. It has exactly \<open>heart_count = 15\<close> hearts, and every heart satisfies
  \<open>0 \<le> start \<le> total_frames div 2 \<le> total_frames / 2\<close>, \<open>0 \<le> x \<le> width\<close> and
  \<open>int(0.03 \<times> width) \<le> size \<le> int(0.08 \<times> width) \<le> 0.08 \<times> width\<close>: the lower bound of
  the size is the truncated one.
\<close>

theorem C8_particle_bounds:
  assumes "prepare E g base message width height fps duration = Inr sc"
  shows "gen_hearts g 0 heart_count (fps * duration) width = Inr (sc_hearts sc) \<and>
         length (sc_hearts sc) = 15 \<and>
         (\<forall>p\<in>set (sc_hearts sc).
            0 \<le> h_start p \<and> h_start p \<le> fps * duration div 2 \<and>
            rat_of_int (h_start p) \<le> rat_of_int (fps * duration) / 2 \<and>
            0 \<le> h_x p \<and> h_x p \<le> width \<and>
            py_int (rat_of_int width * (3 / 100)) \<le> h_size p \<and>
            h_size p \<le> py_int (rat_of_int width * (8 / 100)) \<and>
            rat_of_int (h_size p) \<le> 8 / 100 * rat_of_int width)"
proof (intro conjI ballI)
  show gen: "gen_hearts g 0 heart_count (fps * duration) width = Inr (sc_hearts sc)"
    using prepare_scene [OF assms] by simp
  show "length (sc_hearts sc) = 15"
    using gen_hearts_length [OF gen] by (simp add: heart_count_def)
  fix p
  assume p: "p \<in> set (sc_hearts sc)"
  note b = gen_hearts_bounds [OF gen p]
  from b show "0 \<le> h_start p" "h_start p \<le> fps * duration div 2" "0 \<le> h_x p" "h_x p \<le> width"
    "py_int (rat_of_int width * (3 / 100)) \<le> h_size p"
    "h_size p \<le> py_int (rat_of_int width * (8 / 100))"
    by simp_all
  have "2 * h_start p \<le> fps * duration" using b by linarith
  then have "rat_of_int (2 * h_start p) \<le> rat_of_int (fps * duration)"
    by (simp only: of_int_le_iff)
  then show "rat_of_int (h_start p) \<le> rat_of_int (fps * duration) / 2" by simp
  have w: "0 \<le> width" using b by linarith
  then have "rat_of_int (py_int (rat_of_int width * (8 / 100))) \<le> rat_of_int width * (8 / 100)"
    by (intro py_int_le) simp
  moreover have "rat_of_int (h_size p) \<le> rat_of_int (py_int (rat_of_int width * (8 / 100)))"
    using b by (simp only: of_int_le_iff)
  ultimately show "rat_of_int (h_size p) \<le> 8 / 100 * rat_of_int width"
    by (simp add: mult.commute)
qed

theorem C8_witness:
  "sc_hearts (projr (prepare no_fonts zero_rng () ''Hi'' 720 720 15 5)) =
     replicate 15 \<lparr>h_start = 0, h_x = 0, h_size = 21\<rparr> \<and>
   length (replicate 15 \<lparr>h_start = 0, h_x = 0, h_size = 21\<rparr>) = 15 \<and>
   py_int (rat_of_int 720 * (3 / 100)) \<le> h_size \<lparr>h_start = 0, h_x = 0, h_size = 21\<rparr> \<and>
   h_size \<lparr>h_start = 0, h_x = 0, h_size = 21\<rparr> \<le> py_int (rat_of_int 720 * (8 / 100))"
proof -
  have p: "\<lparr>h_start = 0, h_x = 0, h_size = 21\<rparr> \<in> set (replicate 15 \<lparr>h_start = 0, h_x = 0, h_size = 21\<rparr>)"
    by simp
  from C8_particle_bounds [OF prepare_720] p show ?thesis
    by (simp add: prepare_720)
qed

subsection \<open>Frame count\<close>

lemma run_frames_nth:
  assumes "run_frames E g base message w h fps d = Inr (st, frames)"
  shows "length frames = nat (fps * d) \<and>
         (\<exists>sc. prepare E g base message w h fps d = Inr sc \<and>
            (\<forall>j<length frames. \<exists>s s'. cache_ok s \<and>
               render_frame g sc (int j) s = Inr (s', frames ! j)))"
proof -
  from assms obtain sc where
    sc: "prepare E g base message w h fps d = Inr sc" and
    rf: "render_frames g sc [0..fps * d - 1] init_state = Inr (st, frames)"
    unfolding run_frames_render by blast
  have len: "length frames = nat (fps * d)"
    using render_frames_length [OF rf] by simp
  have "\<exists>s s'. cache_ok s \<and> render_frame g sc (int j) s = Inr (s', frames ! j)"
    if j: "j < length frames" for j
  proof -
    from j len have jl: "j < length [0..fps * d - 1]" by simp
    from j len have "[0..fps * d - 1] ! j = int j"
      by (simp add: nth_upto)
    with render_frames_nth [OF rf init_state_cache_ok jl] show ?thesis by simp
  qed
  with sc len show ?thesis by blast
qed




subsection \<open>The sprite cache over a run\<close>

lemma draw_heart_keeps:
  "draw_heart g T H f h (st, fr) = Inr (st', fr') \<Longrightarrow> heart_cache st k = Some v \<Longrightarrow>
     heart_cache st' k = Some v"
  by (auto simp: draw_heart_def Let_def split: if_splits sum.splits dest: fetch_heart_keeps)

lemma draw_hearts_keeps:
  "draw_hearts g T H f hs (st, fr) = Inr (st', fr') \<Longrightarrow> heart_cache st k = Some v \<Longrightarrow>
     heart_cache st' k = Some v"
proof (induction hs arbitrary: st fr)
  case Nil
  then show ?case by simp
next
  case (Cons h hs)
  from Cons.prems(1) obtain st1 fr1 where
    one: "draw_heart g T H f h (st, fr) = Inr (st1, fr1)" and
    rest: "draw_hearts g T H f hs (st1, fr1) = Inr (st', fr')"
    by (auto split: sum.splits)
  from Cons.IH [OF rest draw_heart_keeps [OF one Cons.prems(2)]] show ?case .
qed

lemma render_frame_keeps:
  "render_frame g sc f st = Inr (st', fr) \<Longrightarrow> heart_cache st k = Some v \<Longrightarrow>
     heart_cache st' k = Some v"
  by (auto simp: render_frame_def Let_def split: sum.splits dest: draw_hearts_keeps)

lemma render_frames_keeps:
  "render_frames g sc fs st = Inr (st', frs) \<Longrightarrow> heart_cache st k = Some v \<Longrightarrow>
     heart_cache st' k = Some v"
proof (induction fs arbitrary: st frs)
  case Nil
  then show ?case by simp
next
  case (Cons f fs)
  from Cons.prems(1) obtain st1 fr frs1 where
    one: "render_frame g sc f st = Inr (st1, fr)" and
    rest: "render_frames g sc fs st1 = Inr (st', frs1)"
    by (auto split: sum.splits)
  from Cons.IH [OF rest render_frame_keeps [OF one Cons.prems(2)]] show ?case .
qed

lemma fetch_heart_stored:
  "fetch_heart sz st = Inr (im, st1) \<Longrightarrow> heart_cache st1 sz = Some im"
  by (cases "heart_cache st sz") (auto simp: fetch_heart_miss fetch_heart_hit)

text \<open>
  C5. The cache is filled lazily. A request for a size that is not in the cache calls
  \<^verbatim>\<open>create_heart\<close> once (the call counter goes up by one) and stores the sprite under
  the size. A request for a size that is in the cache returns the stored sprite and
  leaves cache and counter as they are; so does every later request for the same size,
  directly after the first or after any number of further frames. Over a whole run,
  the number of calls of \<^verbatim>\<open>create_heart\<close> is the number of sizes in the cache.
\<close>

theorem C5_sprite_cache:
  "(\<exists>im st1.
      fetch_heart sz st = Inr (im, st1) \<and>
      (heart_cache st sz = None \<longrightarrow>
         im = create_heart sz heart_color \<and> raster_calls st1 = Suc (raster_calls st) \<and>
         heart_cache st1 = (heart_cache st)(sz \<mapsto> im)) \<and>
      (heart_cache st sz \<noteq> None \<longrightarrow> heart_cache st sz = Some im \<and> st1 = st) \<and>
      fetch_heart sz st1 = Inr (im, st1) \<and>
      (\<forall>(sc::'a scene) fs st2 frames.
         render_frames g sc fs st1 = Inr (st2, frames) \<longrightarrow> fetch_heart sz st2 = Inr (im, st2))) \<and>
   (0 < width \<and> 0 < height \<and> 0 \<le> fps * duration \<longrightarrow>
      (\<exists>st frames.
         run_frames E g (base::'a) message width height fps duration = Inr (st, frames) \<and>
         raster_calls st = card (dom (heart_cache st)) \<and>
         (\<forall>k v. heart_cache st k = Some v \<longrightarrow> v = create_heart k heart_color)))"
proof (intro conjI impI)
  obtain im st1 where fe: "fetch_heart sz st = Inr (im, st1)"
    using fetch_heart_ok by blast
  have stored: "heart_cache st1 sz = Some im"
    using fetch_heart_stored [OF fe] .
  have miss: "heart_cache st sz = None \<longrightarrow>
         im = create_heart sz heart_color \<and> raster_calls st1 = Suc (raster_calls st) \<and>
         heart_cache st1 = (heart_cache st)(sz \<mapsto> im)"
    using fe by (auto simp: fetch_heart_miss)
  have hit: "heart_cache st sz \<noteq> None \<longrightarrow> heart_cache st sz = Some im \<and> st1 = st"
    using fe by (auto simp: fetch_heart_hit)
  have again: "fetch_heart sz st1 = Inr (im, st1)"
    using stored by (rule fetch_heart_hit)
  have later: "\<forall>(sc::'a scene) fs st2 frames.
         render_frames g sc fs st1 = Inr (st2, frames) \<longrightarrow> fetch_heart sz st2 = Inr (im, st2)"
    by (auto intro: fetch_heart_hit render_frames_keeps [OF _ stored])
  note fe miss hit again later
  then show "\<exists>im st1.
      fetch_heart sz st = Inr (im, st1) \<and>
      (heart_cache st sz = None \<longrightarrow>
         im = create_heart sz heart_color \<and> raster_calls st1 = Suc (raster_calls st) \<and>
         heart_cache st1 = (heart_cache st)(sz \<mapsto> im)) \<and>
      (heart_cache st sz \<noteq> None \<longrightarrow> heart_cache st sz = Some im \<and> st1 = st) \<and>
      fetch_heart sz st1 = Inr (im, st1) \<and>
      (\<forall>(sc::'a scene) fs st2 frames.
         render_frames g sc fs st1 = Inr (st2, frames) \<longrightarrow> fetch_heart sz st2 = Inr (im, st2))"
    by (intro exI [of _ im] exI [of _ st1] conjI)
next
  assume a: "0 < width \<and> 0 < height \<and> 0 \<le> fps * duration"
  then obtain st frames where
    run: "run_frames E g base message width height fps duration = Inr (st, frames)"
    using run_frames_ok [of width height fps duration E g base message] by blast
  then obtain sc where
    "render_frames g sc [0..fps * duration - 1] init_state = Inr (st, frames)"
    unfolding run_frames_render by blast
  from render_frames_cache_ok [OF this init_state_cache_ok]
  have "raster_calls st = card (dom (heart_cache st)) \<and>
        (\<forall>k v. heart_cache st k = Some v \<longrightarrow> v = create_heart k heart_color)"
    by (simp add: cache_ok_def)
  with run show "\<exists>st frames.
         run_frames E g base message width height fps duration = Inr (st, frames) \<and>
         raster_calls st = card (dom (heart_cache st)) \<and>
         (\<forall>k v. heart_cache st k = Some v \<longrightarrow> v = create_heart k heart_color)"
    by blast
qed

theorem C5_witness:
  "heart_cache init_state 21 = None \<and>
   (\<exists>st1. fetch_heart 21 init_state = Inr (create_heart 21 heart_color, st1) \<and>
          raster_calls st1 = 1 \<and>
          fetch_heart 21 st1 = Inr (create_heart 21 heart_color, st1)) \<and>
   (\<exists>st frames. run_frames no_fonts zero_rng () ''Hi'' 720 720 15 5 = Inr (st, frames) \<and>
                 raster_calls st = card (dom (heart_cache st)))"
proof -
  have n: "heart_cache init_state 21 = None"
    by (simp add: init_state_def)
  have z: "raster_calls init_state = 0"
    by (simp add: init_state_def)
  have d: "(0::int) < 720 \<and> (0::int) < 720 \<and> (0::int) \<le> 15 * 5"
    by simp
  note t = C5_sprite_cache [of 21 init_state zero_rng 720 720 15 5 no_fonts "()" "''Hi''"]
  from t n z have "\<exists>st1. fetch_heart 21 init_state = Inr (create_heart 21 heart_color, st1) \<and>
          raster_calls st1 = 1 \<and>
          fetch_heart 21 st1 = Inr (create_heart 21 heart_color, st1)"
    by auto
  moreover from t d have "\<exists>st frames. run_frames no_fonts zero_rng () ''Hi'' 720 720 15 5 = Inr (st, frames) \<and>
                 raster_calls st = card (dom (heart_cache st))"
    by blast
  ultimately show ?thesis using n by blast
qed

subsection \<open>Fall position\<close>

lemma fall_y_total:
  assumes "h_start h < T"
  shows "fall_y T H h f =
           Inr (- rat_of_int (h_size h) +
                rat_of_int (f - h_start h) / rat_of_int (T - h_start h) *
                rat_of_int (H + h_size h * 2))"
  using assms by (simp add: fall_y_def truediv_def)

lemma fall_y_gap:
  assumes "h_start h < T" and "fall_y T H h f = Inr y"
  shows "rat_of_int (H + h_size h) - y =
           rat_of_int (T - f) / rat_of_int (T - h_start h) * rat_of_int (H + h_size h * 2)"
proof -
  have nz: "rat_of_int T - rat_of_int (h_start h) \<noteq> 0"
    using assms(1) by simp
  from assms have y: "y = - rat_of_int (h_size h) +
                rat_of_int (f - h_start h) / rat_of_int (T - h_start h) *
                rat_of_int (H + h_size h * 2)"
    by (simp add: fall_y_total)
  show ?thesis
    unfolding y using nz by (simp add: field_simps)
qed

text \<open>
  C3. Take a heart with \<open>start = k\<close>, where \<open>k \<le> total_frames div 2\<close> and
  \<open>total_frames \<ge> 1\<close>, as every generated heart has. At a frame \<open>f < k\<close> the loop body
  leaves state and frame as they are. At every \<open>f\<close> the position is
  \<open>y = -size + t \<times> (height + 2 \<times> size)\<close> with \<open>t = (f - k) / (total_frames - k)\<close>; at
  \<open>f = k\<close> it is exactly \<open>-size\<close>. At \<open>f \<ge> k\<close> with \<open>y > height\<close> the heart is skipped. The
  distance from \<open>y\<close> to \<open>height + size\<close> is \<open>(total_frames - f) / (total_frames - k) \<times>
  (height + 2 \<times> size)\<close>, which shrinks linearly to 0 as \<open>f\<close> goes to \<open>total_frames\<close>, where
  \<open>y = height + size\<close>: a heart of positive size is then past the bottom edge and skipped.
\<close>

theorem C3_fall_position:
  assumes "1 \<le> total_frames" and "h_start h \<le> total_frames div 2"
  shows "(f < h_start h \<longrightarrow> draw_heart g total_frames height f h sf = Inr sf) \<and>
         fall_y total_frames height h (h_start h) = Inr (- rat_of_int (h_size h)) \<and>
         fall_y total_frames height h f =
           Inr (- rat_of_int (h_size h) +
                rat_of_int (f - h_start h) / rat_of_int (total_frames - h_start h) *
                rat_of_int (height + 2 * h_size h)) \<and>
         (\<forall>y. h_start h \<le> f \<and> fall_y total_frames height h f = Inr y \<and> rat_of_int height < y \<longrightarrow>
              draw_heart g total_frames height f h sf = Inr sf) \<and>
         (\<forall>y. fall_y total_frames height h f = Inr y \<longrightarrow>
              rat_of_int (height + h_size h) - y =
                rat_of_int (total_frames - f) / rat_of_int (total_frames - h_start h) *
                rat_of_int (height + 2 * h_size h)) \<and>
         fall_y total_frames height h total_frames = Inr (rat_of_int (height + h_size h)) \<and>
         (0 < h_size h \<longrightarrow> draw_heart g total_frames height total_frames h sf = Inr sf)"
proof -
  have k: "h_start h < total_frames"
    using assms by linarith
  have nz: "rat_of_int total_frames - rat_of_int (h_start h) \<noteq> 0"
    using k by simp
  have c: "height + h_size h * 2 = height + 2 * h_size h"
    by simp
  have before: "f < h_start h \<longrightarrow> draw_heart g total_frames height f h sf = Inr sf"
    by (simp add: draw_heart_before)
  have at_start: "fall_y total_frames height h (h_start h) = Inr (- rat_of_int (h_size h))"
    by (simp add: fall_y_total [OF k])
  have formula: "fall_y total_frames height h f =
           Inr (- rat_of_int (h_size h) +
                rat_of_int (f - h_start h) / rat_of_int (total_frames - h_start h) *
                rat_of_int (height + 2 * h_size h))"
    by (simp only: fall_y_total [OF k] c)
  have skip: "\<forall>y. h_start h \<le> f \<and> fall_y total_frames height h f = Inr y \<and> rat_of_int height < y \<longrightarrow>
              draw_heart g total_frames height f h sf = Inr sf"
    by (auto intro: draw_heart_below)
  have gap: "\<forall>y. fall_y total_frames height h f = Inr y \<longrightarrow>
              rat_of_int (height + h_size h) - y =
                rat_of_int (total_frames - f) / rat_of_int (total_frames - h_start h) *
                rat_of_int (height + 2 * h_size h)"
    using fall_y_gap [OF k, of height f] by (simp only: c) blast
  have at_end: "fall_y total_frames height h total_frames = Inr (rat_of_int (height + h_size h))"
    using nz by (simp add: fall_y_total [OF k])
  have out: "0 < h_size h \<longrightarrow> draw_heart g total_frames height total_frames h sf = Inr sf"
  proof
    assume "0 < h_size h"
    then have "rat_of_int height < rat_of_int (height + h_size h)"
      by simp
    with at_end k show "draw_heart g total_frames height total_frames h sf = Inr sf"
      by (intro draw_heart_below [where y = "rat_of_int (height + h_size h)"]) simp_all
  qed
  from before at_start formula skip gap at_end out show ?thesis
    by (intro conjI)
qed

theorem C3_witness:
  "fall_y 75 720 \<lparr>h_start = 0, h_x = 0, h_size = 21\<rparr> 0 = Inr (- 21) \<and>
   fall_y 75 720 \<lparr>h_start = 0, h_x = 0, h_size = 21\<rparr> 74 = Inr (18271 / 25) \<and>
   fall_y 75 720 \<lparr>h_start = 0, h_x = 0, h_size = 21\<rparr> 75 = Inr 741 \<and>
   draw_heart zero_rng 75 720 74 \<lparr>h_start = 0, h_x = 0, h_size = 21\<rparr> (init_state, blank_720) =
     Inr (init_state, blank_720) \<and>
   draw_heart zero_rng 75 720 75 \<lparr>h_start = 0, h_x = 0, h_size = 21\<rparr> (init_state, blank_720) =
     Inr (init_state, blank_720)"
proof -
  have a: "(1::int) \<le> 75" and b: "h_start \<lparr>h_start = 0, h_x = 0, h_size = 21\<rparr> \<le> 75 div 2"
    by simp_all
  note t = C3_fall_position [OF a b, where height = 720 and g = zero_rng and sf = "(init_state, blank_720)"]
  have y74: "fall_y 75 720 \<lparr>h_start = 0, h_x = 0, h_size = 21\<rparr> 74 = Inr (18271 / 25)"
    using t [where f = 74] by simp
  have skip: "\<forall>y. h_start \<lparr>h_start = 0, h_x = 0, h_size = 21\<rparr> \<le> 74 \<and>
          fall_y 75 720 \<lparr>h_start = 0, h_x = 0, h_size = 21\<rparr> 74 = Inr y \<and> rat_of_int 720 < y \<longrightarrow>
        draw_heart zero_rng 75 720 74 \<lparr>h_start = 0, h_x = 0, h_size = 21\<rparr> (init_state, blank_720) =
          Inr (init_state, blank_720)"
    using t [where f = 74] by blast
  have "h_start \<lparr>h_start = 0, h_x = 0, h_size = 21\<rparr> \<le> 74 \<and>
          fall_y 75 720 \<lparr>h_start = 0, h_x = 0, h_size = 21\<rparr> 74 = Inr (18271 / 25) \<and>
          rat_of_int 720 < 18271 / 25"
    using y74 by simp
  with skip have "draw_heart zero_rng 75 720 74 \<lparr>h_start = 0, h_x = 0, h_size = 21\<rparr> (init_state, blank_720) =
     Inr (init_state, blank_720)"
    by blast
  moreover from t [where f = 0] have "fall_y 75 720 \<lparr>h_start = 0, h_x = 0, h_size = 21\<rparr> 0 = Inr (- 21)"
    by simp
  moreover from t [where f = 0] have "fall_y 75 720 \<lparr>h_start = 0, h_x = 0, h_size = 21\<rparr> 75 = Inr 741"
    by simp
  moreover from t [where f = 0] have "draw_heart zero_rng 75 720 75 \<lparr>h_start = 0, h_x = 0, h_size = 21\<rparr> (init_state, blank_720) =
     Inr (init_state, blank_720)"
    by simp
  ultimately show ?thesis using y74 by blast
qed

subsection \<open>Caption\<close>

lemma generate_frames_ok:
  assumes "0 < w" and "0 < h" and "0 \<le> fps * d"
  shows "\<exists>frames. generate_frames E g base message w h fps d = Inr frames \<and>
                  length frames = nat (fps * d)"
proof -
  obtain st frames where r: "run_frames E g base message w h fps d = Inr (st, frames)"
    using run_frames_ok [OF assms, of E g base message] by blast
  with run_frames_nth [OF r] show ?thesis
    by (simp add: generate_frames_def)
qed

lemma generate_frames_member:
  assumes "generate_frames E g base message w h fps d = Inr frames"
    and "prepare E g base message w h fps d = Inr sc"
    and "fr \<in> set frames"
  shows "\<exists>j s s'. j < length frames \<and> fr = frames ! j \<and> cache_ok s \<and>
                   render_frame g sc (int j) s = Inr (s', fr)"
proof -
  from assms(1) obtain st where r: "run_frames E g base message w h fps d = Inr (st, frames)"
    unfolding generate_frames_run by blast
  from assms(3) obtain j where j: "j < length frames" "frames ! j = fr"
    by (auto simp: in_set_conv_nth)
  from run_frames_nth [OF r] assms(2) j show ?thesis
    by auto
qed

text \<open>
  C7. For every caption and measured text width the horizontal origin
  \<^verbatim>\<open>int((width - text_w) / 2)\<close> is less than one pixel away from \<open>(width - text_w) / 2\<close>.
  On every frame the first operation draws the caption in black with alpha 160 at the
  origin moved by \<open>shadow_offset = 2\<close> pixels right and down, the second draws it in
  opaque white at the origin, and all later operations composite hearts.
\<close>

theorem C7_caption:
  assumes "generate_frames E g base message width height fps duration = Inr frames"
    and "prepare E g base message width height fps duration = Inr sc"
    and "fr \<in> set frames"
  shows "\<bar>rat_of_int (msg_x_of width text_w) - (rat_of_int width - rat_of_int text_w) / 2\<bar> < 1 \<and>
         sc_text_w sc = fst (textsize E message (sc_font sc)) \<and>
         shadow_offset = 2 \<and>
         (\<exists>cs. im_ops fr =
                 [DrawText (msg_x_of width (sc_text_w sc) + shadow_offset,
                            sc_msg_y sc + shadow_offset) message (sc_font sc) (0, 0, 0, 160),
                  DrawText (msg_x_of width (sc_text_w sc), sc_msg_y sc)
                    message (sc_font sc) (255, 255, 255, 255)] @ cs \<and>
               (\<forall>c\<in>set cs. is_composite c))"
proof (intro conjI)
  show "\<bar>rat_of_int (msg_x_of width text_w) - (rat_of_int width - rat_of_int text_w) / 2\<bar> < 1"
    using py_int_close [of "rat_of_int (width - text_w) / 2"] by (simp add: msg_x_of_def)
  show "sc_text_w sc = fst (textsize E message (sc_font sc))"
    using prepare_scene [OF assms(2)] by simp
  show "shadow_offset = 2"
    by (simp add: shadow_offset_def)
  from generate_frames_member [OF assms] obtain j s s' where
    r: "render_frame g sc (int j) s = Inr (s', fr)"
    by blast
  from render_frame_shape [OF r] prepare_scene [OF assms(2)]
  show "\<exists>cs. im_ops fr =
                 [DrawText (msg_x_of width (sc_text_w sc) + shadow_offset,
                            sc_msg_y sc + shadow_offset) message (sc_font sc) (0, 0, 0, 160),
                  DrawText (msg_x_of width (sc_text_w sc), sc_msg_y sc)
                    message (sc_font sc) (255, 255, 255, 255)] @ cs \<and>
               (\<forall>c\<in>set cs. is_composite c)"
    by auto
qed

theorem C7_witness:
  "msg_x_of 720 12 = 354 \<and>
   (\<exists>frames. generate_frames no_fonts zero_rng () ''Hi'' 720 720 15 5 = Inr frames \<and>
      length frames = 75 \<and>
      take 2 (im_ops (frames ! 0)) =
        [DrawText (356, 38) ''Hi'' DefaultFont (0, 0, 0, 160),
         DrawText (354, 36) ''Hi'' DefaultFont (255, 255, 255, 255)])"
proof -
  have m: "msg_x_of 720 12 = 354"
    by (simp add: msg_x_of_def py_int_def)
  obtain frames where
    gf: "generate_frames no_fonts zero_rng () ''Hi'' 720 720 15 5 = Inr frames" and
    len: "length frames = 75"
    using generate_frames_ok [of 720 720 15 5 no_fonts zero_rng "()" "''Hi''"] by auto
  from len have mem: "frames ! 0 \<in> set frames"
    by (intro nth_mem) simp
  from C7_caption [OF gf prepare_720 mem, of 12]
  have "take 2 (im_ops (frames ! 0)) =
        [DrawText (356, 38) ''Hi'' DefaultFont (0, 0, 0, 160),
         DrawText (354, 36) ''Hi'' DefaultFont (255, 255, 255, 255)]"
    by (auto simp: m)
  with m gf len show ?thesis by blast
qed

subsection \<open>Compositing\<close>








subsection \<open>Determinism: what the frames read of the random source\<close>

lemma draw_heart_same_drift:
  assumes "\<forall>i. drift_of (random_float g1 i) (h_size p) = drift_of (random_float g2 i) (h_size p)"
  shows "draw_heart g1 T H f p sf = draw_heart g2 T H f p sf"
  using assms by (auto simp: draw_heart_def Let_def split: sum.splits)

lemma draw_hearts_same_drift:
  assumes "\<forall>p\<in>set hs. \<forall>i.
             drift_of (random_float g1 i) (h_size p) = drift_of (random_float g2 i) (h_size p)"
  shows "draw_hearts g1 T H f hs sf = draw_hearts g2 T H f hs sf"
  using assms
proof (induction hs arbitrary: sf)
  case Nil
  show ?case by simp
next
  case (Cons p hs)
  then have "draw_heart g1 T H f p sf = draw_heart g2 T H f p sf"
    by (intro draw_heart_same_drift) simp
  with Cons show ?case
    by (simp split: sum.splits)
qed

lemma render_frame_same_drift:
  assumes "\<forall>p\<in>set (sc_hearts sc). \<forall>i.
             drift_of (random_float g1 i) (h_size p) = drift_of (random_float g2 i) (h_size p)"
  shows "render_frame g1 sc f st = render_frame g2 sc f st"
  by (simp add: render_frame_def draw_hearts_same_drift [OF assms])

lemma render_frames_same_drift:
  assumes "\<forall>p\<in>set (sc_hearts sc). \<forall>i.
             drift_of (random_float g1 i) (h_size p) = drift_of (random_float g2 i) (h_size p)"
  shows "render_frames g1 sc fs st = render_frames g2 sc fs st"
proof (induction fs arbitrary: st)
  case Nil
  show ?case by simp
next
  case (Cons f fs)
  show ?case
    by (simp add: render_frame_same_drift [OF assms] Cons split: sum.splits)
qed

lemma prepare_same_hearts:
  assumes "gen_hearts g1 0 heart_count (fps * d) w = gen_hearts g2 0 heart_count (fps * d) w"
  shows "prepare E g1 base message w h fps d = prepare E g2 base message w h fps d"
  by (simp add: prepare_def Let_def assms split: sum.splits)

text \<open>
  C9. Take two runs on the same background, caption and dimensions whose random
  sources generate the same hearts and give drift zero for each of these hearts at
  every draw. Then the two runs return the same frame sequence.
\<close>

theorem C9_deterministic_without_drift:
  assumes "gen_hearts g1 0 heart_count (fps * duration) width = Inr hearts"
    and "gen_hearts g2 0 heart_count (fps * duration) width = Inr hearts"
    and "\<forall>p\<in>set hearts. \<forall>i. drift_of (random_float g1 i) (h_size p) = 0 \<and>
                                drift_of (random_float g2 i) (h_size p) = 0"
  shows "generate_frames E g1 base message width height fps duration =
         generate_frames E g2 base message width height fps duration"
proof -
  have prep: "prepare E g1 base message width height fps duration =
              prepare E g2 base message width height fps duration"
    using assms(1,2) by (intro prepare_same_hearts) simp
  have run: "run_frames E g1 base message width height fps duration =
             run_frames E g2 base message width height fps duration"
  proof (cases "prepare E g1 base message width height fps duration")
    case (Inl e)
    moreover from Inl prep have "prepare E g2 base message width height fps duration = Inl e"
      by simp
    ultimately show ?thesis by (simp add: run_frames_def)
  next
    case (Inr sc)
    from prepare_scene [OF Inr] assms(1) have "sc_hearts sc = hearts"
      by simp
    with assms(3) have "\<forall>p\<in>set (sc_hearts sc). \<forall>i.
             drift_of (random_float g1 i) (h_size p) = drift_of (random_float g2 i) (h_size p)"
      by simp
    note same = render_frames_same_drift [OF this]
    from Inr prep have "prepare E g2 base message width height fps duration = Inr sc"
      by simp
    with Inr same show ?thesis
      by (simp add: run_frames_def)
  qed
  then show ?thesis
    by (simp add: generate_frames_def)
qed

lemma gen_hearts_100:
  "gen_hearts zero_rng 0 heart_count (1 * 1) 100 =
     Inr (replicate 15 \<lparr>h_start = 0, h_x = 0, h_size = 3\<rparr>)"
  "gen_hearts late_rng 0 heart_count (1 * 1) 100 =
     Inr (replicate 15 \<lparr>h_start = 0, h_x = 0, h_size = 3\<rparr>)"
  by code_simp+

lemma small_heart_no_drift:
  "drift_of (random_float zero_rng i) 3 = 0" "drift_of (random_float late_rng i) 3 = 0"
proof -
  have a: "\<lceil>- (3 / 10) :: rat\<rceil> = 0"
    by (rule ceiling_unique) simp_all
  have b: "\<lceil>- (2702159776422297 / 9007199254740992) :: rat\<rceil> = 0"
    by (rule ceiling_unique) simp_all
  show "drift_of (random_float zero_rng i) 3 = 0"
    by (simp add: random_float_def zero_rng_def drift_of_def py_int_def a)
  show "drift_of (random_float late_rng i) 3 = 0"
    by (simp add: random_float_def late_rng_def drift_of_def py_int_def a b)
qed

theorem C9_witness:
  "zero_rng 45 \<noteq> late_rng 45 \<and>
   generate_frames no_fonts zero_rng () ''Hi'' 100 100 1 1 =
   generate_frames no_fonts late_rng () ''Hi'' 100 100 1 1"
proof -
  have "\<forall>p\<in>set (replicate 15 \<lparr>h_start = 0, h_x = 0, h_size = 3\<rparr>). \<forall>i.
          drift_of (random_float zero_rng i) (h_size p) = 0 \<and>
          drift_of (random_float late_rng i) (h_size p) = 0"
    by (simp add: small_heart_no_drift)
  from C9_deterministic_without_drift [OF gen_hearts_100 this, of no_fonts "()" "''Hi''" 100]
  show ?thesis
    by (simp add: zero_rng_def late_rng_def)
qed

end
